theory Spec2Isabelle
  imports Complex_Main "HOL-Library.Multiset" "HOL-Library.List_Lexorder"
    "HOL-Library.Product_Lexorder"
begin

section \<open>Python values\<close>

text \<open>
  A Python \<^verbatim>\<open>str\<close> is a sequence of Unicode code points, so \<^verbatim>\<open>len\<close> counts code
  points and \<^verbatim>\<open><\<close> compares them lexicographically. The embedding keeps that: a string is
  a list of code points, ordered lexicographically. \<open>u\<close> turns an ASCII literal into one.
\<close>

type_synonym pystr = "nat list"

definition u :: "string \<Rightarrow> pystr" where
  "u s = map of_char s"

text \<open>The exceptions the modelled code can raise.\<close>

datatype py_error = ValueError | TypeError | OtherError

text \<open>
  \<^verbatim>\<open>datetime\<close>: the fields of a naive datetime object. Python keeps the year within
  1..9999, the month within 1..12 and so on.
\<close>

record datetime =
  year :: nat
  month :: nat
  day :: nat
  hour :: nat
  minute :: nat
  second :: nat
  microsecond :: nat

text \<open>
  The values a receipt dictionary holds (\<^verbatim>\<open>Dict[str, Any]\<close>, built from the rows of the
  store): \<^verbatim>\<open>None\<close>, a number, a string or a datetime. \<^verbatim>\<open>int\<close> and \<^verbatim>\<open>float\<close> are one
  constructor carrying the exact numeric value: the code tests them together
  (\<^verbatim>\<open>isinstance(v, (int, float))\<close>), and Python compares, adds and hashes them by value.
  Rounding of float arithmetic, infinities and NaN are outside the embedding.
\<close>

datatype pyval = PNone | PNum rat | PStr pystr | PDate datetime

type_synonym receipt = "pystr \<rightharpoonup> pyval"

text \<open>\<^verbatim>\<open>d.get(key, default)\<close>\<close>

definition get_default :: "receipt \<Rightarrow> pystr \<Rightarrow> pyval \<Rightarrow> pyval" where
  "get_default d k dflt = (case d k of None \<Rightarrow> dflt | Some v \<Rightarrow> v)"

text \<open>Decimal digits of a field, zero-padded to a fixed width (most significant first).\<close>

definition zpad :: "nat list \<Rightarrow> nat \<Rightarrow> pystr" where
  "zpad powers n = map (\<lambda>p. 48 + n div p mod 10) powers"

text \<open>
  \<^verbatim>\<open>strftime("%Y")\<close> and \<^verbatim>\<open>strftime("%Y-%m")\<close>, as the Python documentation gives them:
  the year with century on four digits, the month on two.
\<close>

definition strftime_Y :: "datetime \<Rightarrow> pystr" where
  "strftime_Y d = zpad [1000, 100, 10, 1] (year d)"

definition strftime_Ym :: "datetime \<Rightarrow> pystr" where
  "strftime_Ym d = zpad [1000, 100, 10, 1] (year d) @ u ''-'' @ zpad [10, 1] (month d)"



section \<open>algorithms.py: sorting\<close>








text \<open>
  \<^verbatim>\<open>sorted(xs, key=f, reverse=r)\<close> on keys that Python can compare: a stable sort; with
  \<^verbatim>\<open>reverse\<close> the list is reversed, sorted and reversed again, which keeps equal keys in
  their original order.
\<close>

definition py_sorted :: "('a \<Rightarrow> 'k::linorder) \<Rightarrow> bool \<Rightarrow> 'a list \<Rightarrow> 'a list" where
  "py_sorted f reverse xs = (if reverse then rev (sort_key f (rev xs)) else sort_key f xs)"



section \<open>algorithms.py: aggregation\<close>

text \<open>
  \<^verbatim>\<open>Counter(xs)\<close>: a dictionary from each distinct element to its number of occurrences,
  kept as an association list in insertion order (the order of first occurrence).
\<close>

fun counter_incr :: "'a \<Rightarrow> ('a \<times> nat) list \<Rightarrow> ('a \<times> nat) list" where
  "counter_incr x [] = [(x, 1)]"
| "counter_incr x ((y, c) # ycs) =
     (if y = x then (y, c + 1) # ycs else (y, c) # counter_incr x ycs)"

definition counter :: "'a list \<Rightarrow> ('a \<times> nat) list" where
  "counter xs = fold counter_incr xs []"

text \<open>
  \<^verbatim>\<open>sum(amounts)\<close> adds the elements to 0 from left to right and raises \<^verbatim>\<open>TypeError\<close> at
  the first one that is not a number. \<open>as_numbers\<close> is that check: the numbers themselves,
  or the error.
\<close>

fun as_numbers :: "pyval list \<Rightarrow> py_error + rat list" where
  "as_numbers [] = Inr []"
| "as_numbers (PNum a # vs) = (case as_numbers vs of Inl e \<Rightarrow> Inl e | Inr as \<Rightarrow> Inr (a # as))"
| "as_numbers (v # vs) = Inl TypeError"

text \<open>\<^verbatim>\<open>max\<close> of a non-empty sequence.\<close>

fun py_max :: "nat list \<Rightarrow> nat" where
  "py_max [] = 0"
| "py_max (x # xs) = fold max xs x"

record aggregates =
  total_spend :: rat
  mean_spend :: rat
  median_spend :: rat
  mode_spend :: "rat list"
  vendor_frequency :: "(pyval \<times> nat) list"
  category_frequency :: "(pyval \<times> nat) list"

definition median_of :: "rat list \<Rightarrow> rat" where
  "median_of amounts =
     (let sorted_amounts = sort amounts; n = length sorted_amounts in
      if n mod 2 = 0
      then (sorted_amounts ! (n div 2 - 1) + sorted_amounts ! (n div 2)) / 2
      else sorted_amounts ! (n div 2))"

definition mode_of :: "rat list \<Rightarrow> rat list" where
  "mode_of amounts =
     (let amount_counts = counter amounts;
          max_count = (if amount_counts \<noteq> [] then py_max (map snd amount_counts) else 0)
      in map fst (filter (\<lambda>(amount, count). count = max_count) amount_counts))"

definition calculate_aggregates :: "receipt list \<Rightarrow> py_error + aggregates" where
  "calculate_aggregates receipts =
     (if receipts = []
      then Inr \<lparr>total_spend = 0, mean_spend = 0, median_spend = 0, mode_spend = [],
                vendor_frequency = [], category_frequency = []\<rparr>
      else
        let vendors = map (\<lambda>r. get_default r (u ''vendor'') (PStr (u ''Unknown''))) receipts;
            categories = map (\<lambda>r. get_default r (u ''category'') (PStr (u ''Unknown''))) receipts
        in case as_numbers (map (\<lambda>r. get_default r (u ''amount'') (PNum 0)) receipts) of
             Inl e \<Rightarrow> Inl e
           | Inr amounts \<Rightarrow>
               Inr \<lparr>total_spend = sum_list amounts,
                    mean_spend = sum_list amounts / of_nat (length amounts),
                    median_spend = median_of amounts,
                    mode_spend = mode_of amounts,
                    vendor_frequency = counter vendors,
                    category_frequency = counter categories\<rparr>)"

text \<open>
  \<^verbatim>\<open>time_series_data[key] += amount\<close> on a \<^verbatim>\<open>Counter\<close>: a missing key counts as 0 and is
  appended; an existing key keeps its place.
\<close>

fun counter_add :: "pystr \<Rightarrow> rat \<Rightarrow> (pystr \<times> rat) list \<Rightarrow> (pystr \<times> rat) list" where
  "counter_add k a [] = [(k, 0 + a)]"
| "counter_add k a ((k', v) # kvs) =
     (if k' = k then (k', v + a) # kvs else (k', v) # counter_add k a kvs)"

text \<open>
  The loop of \<^verbatim>\<open>time_series_aggregation\<close>. Only a record whose \<^verbatim>\<open>transaction_date\<close> is a
  datetime reaches the test of \<^verbatim>\<open>period\<close>; there an unknown period raises \<^verbatim>\<open>ValueError\<close>, and
  adding an amount that is not a number raises \<^verbatim>\<open>TypeError\<close>.
\<close>

fun time_series_loop ::
  "pystr \<Rightarrow> receipt list \<Rightarrow> (pystr \<times> rat) list \<Rightarrow> py_error + (pystr \<times> rat) list" where
  "time_series_loop period [] time_series_data = Inr time_series_data"
| "time_series_loop period (receipt # receipts) time_series_data =
     (case receipt (u ''transaction_date'') of
        Some (PDate tx_date) \<Rightarrow>
          (if period = u ''month'' then
             (case get_default receipt (u ''amount'') (PNum 0) of
                PNum amount \<Rightarrow>
                  time_series_loop period receipts
                    (counter_add (strftime_Ym tx_date) amount time_series_data)
              | _ \<Rightarrow> Inl TypeError)
           else if period = u ''year'' then
             (case get_default receipt (u ''amount'') (PNum 0) of
                PNum amount \<Rightarrow>
                  time_series_loop period receipts
                    (counter_add (strftime_Y tx_date) amount time_series_data)
              | _ \<Rightarrow> Inl TypeError)
           else Inl ValueError)
      | _ \<Rightarrow> time_series_loop period receipts time_series_data)"

text \<open>
  \<^verbatim>\<open>dict(sorted(time_series_data.items()))\<close>: the items are (label, total) pairs, compared
  as tuples.
\<close>

definition time_series_aggregation :: "receipt list \<Rightarrow> pystr \<Rightarrow> py_error + (pystr \<times> rat) list" where
  "time_series_aggregation receipts period =
     (case time_series_loop period receipts [] of
        Inl e \<Rightarrow> Inl e
      | Inr time_series_data \<Rightarrow> Inr (sort time_series_data))"


section \<open>Notions the properties of the aggregation functions are stated with\<close>

text \<open>
  An association list holds the counts of a list: its keys are distinct, and it maps
  every element of the list to its number of occurrences and nothing else. The total an
  association list holds for a label is 0 when the label is absent.
\<close>

definition counts_of :: "('a \<times> nat) list \<Rightarrow> 'a list \<Rightarrow> bool" where
  "counts_of acc ys \<longleftrightarrow>
     distinct (map fst acc) \<and>
     map_of acc = (\<lambda>a. if a \<in> set ys then Some (count_list ys a) else None)"


text \<open>
  The amount a record contributes (\<^verbatim>\<open>r.get("amount", 0.0)\<close>), whether it is a number, its
  value, the datetime of a record if it has one, the label of a datetime under a period,
  and whether a record falls in the bucket of a label.
\<close>

definition amount_value :: "receipt \<Rightarrow> pyval" where
  "amount_value r = get_default r (u ''amount'') (PNum 0)"

fun is_number :: "pyval \<Rightarrow> bool" where
  "is_number (PNum a) = True"
| "is_number v = False"

fun number_of :: "pyval \<Rightarrow> rat" where
  "number_of (PNum a) = a"
| "number_of v = 0"

definition date_of :: "receipt \<Rightarrow> datetime option" where
  "date_of r = (case r (u ''transaction_date'') of Some (PDate d) \<Rightarrow> Some d | _ \<Rightarrow> None)"




section \<open>Regular expressions as parser.py uses them\<close>

text \<open>
  The character classes of Python's \<^verbatim>\<open>re\<close> on \<^verbatim>\<open>str\<close>. Whitespace (\<^verbatim>\<open>\s\<close>, and what
  \<^verbatim>\<open>strip\<close> removes) is the Unicode list. Digits (\<^verbatim>\<open>\d\<close>), word characters (\<^verbatim>\<open>\w\<close>) and
  case folding are given for ASCII: a digit, letter or cased character beyond ASCII is an
  ordinary character here, so the embedding speaks for texts without those.
\<close>

definition is_digit :: "nat \<Rightarrow> bool" where
  "is_digit c = (48 \<le> c \<and> c \<le> 57)"

definition is_space :: "nat \<Rightarrow> bool" where
  "is_space c =
     ((9 \<le> c \<and> c \<le> 13) \<or> (28 \<le> c \<and> c \<le> 32) \<or> c = 133 \<or> c = 160 \<or> c = 5760 \<or>
      (8192 \<le> c \<and> c \<le> 8202) \<or> c = 8232 \<or> c = 8233 \<or> c = 8239 \<or> c = 8287 \<or> c = 12288)"

definition is_word :: "nat \<Rightarrow> bool" where
  "is_word c = (is_digit c \<or> (65 \<le> c \<and> c \<le> 90) \<or> (97 \<le> c \<and> c \<le> 122) \<or> c = 95)"

definition lower_c :: "nat \<Rightarrow> nat" where
  "lower_c c = (if 65 \<le> c \<and> c \<le> 90 then c + 32 else c)"

text \<open>
  A position of the matcher in the text: the character before it (none at the start), the
  text from it on, and what group 1 has captured so far.
\<close>

record mstate =
  prev :: "nat option"
  rest :: pystr
  cap :: "pystr option"

text \<open>
  The constructs the patterns of parser.py are written with: one character of a class,
  the empty pattern, sequence, alternative, greedy \<^verbatim>\<open>*\<close>, \<^verbatim>\<open>^\<close>, \<^verbatim>\<open>$\<close>, \<^verbatim>\<open>\b\<close> and the
  capturing group.
\<close>

datatype regex = Chr "nat \<Rightarrow> bool" | Eps | Seq regex regex | Alt regex regex | Star regex
  | Bol | Eol | WordB | Group regex

text \<open>
  Greedy repetition: one more round of the body first, then none. A round that consumes
  nothing ends the repetition, so the length of the remaining text bounds the rounds.
\<close>

fun rstar :: "(mstate \<Rightarrow> mstate list) \<Rightarrow> nat \<Rightarrow> mstate \<Rightarrow> mstate list" where
  "rstar f 0 st = [st]"
| "rstar f (Suc n) st =
     concat (map (rstar f n) (filter (\<lambda>st'. length (rest st') < length (rest st)) (f st))) @ [st]"

definition at_word :: "nat option \<Rightarrow> bool" where
  "at_word c = (case c of None \<Rightarrow> False | Some x \<Rightarrow> is_word x)"

text \<open>
  The backtracking matcher: every way the pattern matches at a position, in the order
  in which \<^verbatim>\<open>re\<close> tries them (left alternative first, longest repetition first). The
  head of the list is the match \<^verbatim>\<open>re\<close> reports. Without \<^verbatim>\<open>re.MULTILINE\<close>, \<^verbatim>\<open>^\<close> holds at
  the start of the text only, and \<^verbatim>\<open>$\<close> at its end or before a final newline.
\<close>

primrec rmatch :: "regex \<Rightarrow> mstate \<Rightarrow> mstate list" where
  "rmatch (Chr P) st =
     (case rest st of
        [] \<Rightarrow> []
      | c # cs \<Rightarrow> if P c then [st\<lparr>prev := Some c, rest := cs\<rparr>] else [])"
| "rmatch Eps st = [st]"
| "rmatch (Seq a b) st = concat (map (rmatch b) (rmatch a st))"
| "rmatch (Alt a b) st = rmatch a st @ rmatch b st"
| "rmatch (Star a) st = rstar (rmatch a) (length (rest st)) st"
| "rmatch Bol st = (if prev st = None then [st] else [])"
| "rmatch Eol st = (if rest st = [] \<or> rest st = [10] then [st] else [])"
| "rmatch WordB st =
     (if at_word (prev st) \<noteq> at_word (case rest st of [] \<Rightarrow> None | c # cs \<Rightarrow> Some c)
      then [st] else [])"
| "rmatch (Group a) st =
     map (\<lambda>st'. st'\<lparr>cap := Some (take (length (rest st) - length (rest st')) (rest st))\<rparr>)
       (rmatch a st)"

text \<open>\<^verbatim>\<open>re.search(pattern, text)\<close>: the first match at the leftmost position; \<^verbatim>\<open>group(0)\<close>.\<close>

fun re_search_from :: "regex \<Rightarrow> nat option \<Rightarrow> pystr \<Rightarrow> pystr option" where
  "re_search_from r p [] =
     (case rmatch r \<lparr>prev = p, rest = [], cap = None\<rparr> of
        [] \<Rightarrow> None
      | st # sts \<Rightarrow> Some [])"
| "re_search_from r p (c # cs) =
     (case rmatch r \<lparr>prev = p, rest = c # cs, cap = None\<rparr> of
        [] \<Rightarrow> re_search_from r (Some c) cs
      | st # sts \<Rightarrow> Some (take (length (c # cs) - length (rest st)) (c # cs)))"

definition re_search :: "regex \<Rightarrow> pystr \<Rightarrow> pystr option" where
  "re_search r text = re_search_from r None text"

definition the_cap :: "mstate \<Rightarrow> pystr" where
  "the_cap st = (case cap st of None \<Rightarrow> [] | Some g \<Rightarrow> g)"

text \<open>
  \<^verbatim>\<open>re.findall(pattern, text)\<close> for a pattern with one group: group 1 of every match, the
  matches found from left to right without overlap. After an empty match the scan moves
  one character on.
\<close>

fun findall_from :: "regex \<Rightarrow> nat option \<Rightarrow> pystr \<Rightarrow> pystr list" where
  "findall_from r p s =
     (case rmatch r \<lparr>prev = p, rest = s, cap = None\<rparr> of
        [] \<Rightarrow> (case s of [] \<Rightarrow> [] | c # cs \<Rightarrow> findall_from r (Some c) cs)
      | st # sts \<Rightarrow>
          (if length (rest st) < length s
           then the_cap st # findall_from r (prev st) (rest st)
           else the_cap st # (case s of [] \<Rightarrow> [] | c # cs \<Rightarrow> findall_from r (Some c) cs)))"

definition re_findall :: "regex \<Rightarrow> pystr \<Rightarrow> pystr list" where
  "re_findall r text = findall_from r None text"

text \<open>
  Pattern syntax. \<open>chr\<close> is a literal character and \<open>lit\<close> a literal word, each with the
  \<^verbatim>\<open>re.IGNORECASE\<close> flag of the call it occurs in; \<open>alts\<close> is \<^verbatim>\<open>a|b|c\<close>, \<open>seqs\<close> is
  juxtaposition, \<open>opt\<close> is \<^verbatim>\<open>?\<close>, \<open>one_or_more\<close> is \<^verbatim>\<open>+\<close>, \<open>rep_range m n\<close> is \<^verbatim>\<open>{m,n}\<close>.
\<close>

definition chr :: "bool \<Rightarrow> nat \<Rightarrow> regex" where
  "chr ignorecase l = Chr (\<lambda>c. if ignorecase then lower_c c = lower_c l else c = l)"

definition lit :: "bool \<Rightarrow> string \<Rightarrow> regex" where
  "lit ignorecase s = foldr (\<lambda>l r. Seq (chr ignorecase l) r) (u s) Eps"

fun alts :: "regex list \<Rightarrow> regex" where
  "alts [] = Chr (\<lambda>c. False)"
| "alts [r] = r"
| "alts (r # rs) = Alt r (alts rs)"

fun seqs :: "regex list \<Rightarrow> regex" where
  "seqs [] = Eps"
| "seqs [r] = r"
| "seqs (r # rs) = Seq r (seqs rs)"

definition opt :: "regex \<Rightarrow> regex" where
  "opt r = Alt r Eps"

definition one_or_more :: "regex \<Rightarrow> regex" where
  "one_or_more r = Seq r (Star r)"

fun rep :: "nat \<Rightarrow> regex \<Rightarrow> regex" where
  "rep 0 r = Eps"
| "rep (Suc n) r = Seq r (rep n r)"

fun rep_upto :: "nat \<Rightarrow> regex \<Rightarrow> regex" where
  "rep_upto 0 r = Eps"
| "rep_upto (Suc n) r = opt (Seq r (rep_upto n r))"

definition rep_range :: "nat \<Rightarrow> nat \<Rightarrow> regex \<Rightarrow> regex" where
  "rep_range m n r = Seq (rep m r) (rep_upto (n - m) r)"

definition digit :: regex where
  "digit = Chr is_digit"

definition ws :: regex where
  "ws = Chr is_space"

definition word_chr :: regex where
  "word_chr = Chr is_word"


section \<open>parser.py: strings and numbers\<close>

text \<open>\<^verbatim>\<open>s.strip()\<close>, \<^verbatim>\<open>s.split('\n')\<close>, \<^verbatim>\<open>s.lower()\<close>, \<^verbatim>\<open>needle in s\<close>, \<^verbatim>\<open>s.replace(',', '.')\<close>.\<close>

definition strip :: "pystr \<Rightarrow> pystr" where
  "strip s = rev (dropWhile is_space (rev (dropWhile is_space s)))"

fun split_nl :: "pystr \<Rightarrow> pystr list" where
  "split_nl [] = [[]]"
| "split_nl (c # cs) =
     (if c = 10 then [] # split_nl cs
      else (case split_nl cs of [] \<Rightarrow> [[c]] | l # ls \<Rightarrow> (c # l) # ls))"

definition lower :: "pystr \<Rightarrow> pystr" where
  "lower s = map lower_c s"

fun is_in :: "pystr \<Rightarrow> pystr \<Rightarrow> bool" where
  "is_in needle [] = (needle = [])"
| "is_in needle (c # cs) = (take (length needle) (c # cs) = needle \<or> is_in needle cs)"

definition replace_comma :: "pystr \<Rightarrow> pystr" where
  "replace_comma s = map (\<lambda>c. if c = 44 then 46 else c) s"

text \<open>
  \<^verbatim>\<open>float(s)\<close> on the strings that reach it: matches of the number pattern with commas
  replaced, that is digits and dots. Digits, at most one dot, at least one digit: the
  decimal value; anything else: \<^verbatim>\<open>None\<close>, which stands for the \<^verbatim>\<open>ValueError\<close> raised. The
  value is the exact decimal; \<^verbatim>\<open>float\<close> rounds it to the nearest double, which keeps order
  and sign.
\<close>

definition decimal_value :: "pystr \<Rightarrow> nat" where
  "decimal_value ds = foldl (\<lambda>n c. 10 * n + (c - 48)) 0 ds"

definition py_float :: "pystr \<Rightarrow> rat option" where
  "py_float s =
     (let ip = takeWhile is_digit s in
      case dropWhile is_digit s of
        [] \<Rightarrow> if ip = [] then None else Some (of_nat (decimal_value ip))
      | c # fp \<Rightarrow>
          if c = 46 \<and> list_all is_digit fp \<and> (ip \<noteq> [] \<or> fp \<noteq> [])
          then Some (of_nat (decimal_value ip) + of_nat (decimal_value fp) / 10 ^ length fp)
          else None)"


section \<open>parser.py: parse_receipt_text\<close>

text \<open>Vendor: the two keyword patterns, both searched with \<^verbatim>\<open>re.IGNORECASE\<close>.\<close>

definition vendor_patterns :: "regex list" where
  "vendor_patterns =
     [alts (map (lit True) [''supermarket'', ''groceries'', ''store'', ''shop'', ''cafe'',
        ''restaurant'', ''pharmacy'', ''utility'', ''internet'', ''electricity'']),
      alts (map (lit True) [''Walmart'', ''Target'', ''Kroger'', ''Amazon'', ''Starbucks'',
        ''Local Cafe'', ''Best Buy'', ''Vodafone'', ''Reliance Jio'', ''BESCOM''])]"

text \<open>The loop over the keyword patterns: the first pattern that matches sets the vendor.\<close>

fun vendor_keyword_loop :: "regex list \<Rightarrow> pystr \<Rightarrow> pystr \<Rightarrow> pystr" where
  "vendor_keyword_loop [] text vendor = vendor"
| "vendor_keyword_loop (pattern # patterns) text vendor =
     (case re_search pattern text of
        Some group0 \<Rightarrow> strip group0
      | None \<Rightarrow> vendor_keyword_loop patterns text vendor)"

text \<open>\<^verbatim>\<open>^\d{1,2}[/-]\d{1,2}[/-]\d{2,4}$|^\d+\.\d{2}$\<close>: a line that is a date or an amount.\<close>

definition date_or_amount_line :: regex where
  "date_or_amount_line =
     Alt (seqs [Bol, rep_range 1 2 digit, Chr (\<lambda>c. c = 47 \<or> c = 45), rep_range 1 2 digit,
                Chr (\<lambda>c. c = 47 \<or> c = 45), rep_range 2 4 digit, Eol])
         (seqs [Bol, one_or_more digit, chr False 46, rep 2 digit, Eol])"

text \<open>
  The loop over the lines, which the code runs after the keyword loop whatever that
  found: the first line that passes the test becomes the vendor.
\<close>

fun vendor_line_loop :: "pystr list \<Rightarrow> pystr \<Rightarrow> pystr" where
  "vendor_line_loop [] vendor = vendor"
| "vendor_line_loop (line # lines) vendor =
     (if re_search date_or_amount_line line = None \<and> 3 < length line \<and> length line < 30
      then line
      else vendor_line_loop lines vendor)"

definition extract_vendor :: "pystr \<Rightarrow> pystr" where
  "extract_vendor text =
     (let vendor = vendor_keyword_loop vendor_patterns text (u ''Unknown Vendor'');
          lines = filter (\<lambda>line. line \<noteq> []) (map strip (split_nl text))
      in vendor_line_loop lines vendor)"

text \<open>Date: the four patterns, searched case-sensitively, and the formats tried on a match.\<close>

definition months :: regex where
  "months = alts (map (lit False) [''Jan'', ''Feb'', ''Mar'', ''Apr'', ''May'', ''Jun'', ''Jul'',
     ''Aug'', ''Sep'', ''Oct'', ''Nov'', ''Dec''])"

definition date_sep :: regex where
  "date_sep = Chr (\<lambda>c. c = 45 \<or> c = 47 \<or> c = 46)"

definition date_patterns :: "regex list" where
  "date_patterns =
     [seqs [rep_range 1 2 digit, date_sep, rep_range 1 2 digit, date_sep, rep_range 2 4 digit],
      seqs [rep 4 digit, date_sep, rep_range 1 2 digit, date_sep, rep_range 1 2 digit],
      seqs [WordB, rep_range 1 2 digit, one_or_more ws, months, Star word_chr, one_or_more ws,
            rep_range 2 4 digit, WordB],
      seqs [WordB, months, Star word_chr, one_or_more ws, rep_range 1 2 digit, chr False 44, one_or_more ws,
            rep_range 2 4 digit, WordB]]"

definition date_formats :: "pystr list" where
  "date_formats = map u [''%d/%m/%Y'', ''%m/%d/%Y'', ''%Y-%m-%d'', ''%d-%m-%Y'', ''%d.%m.%Y'',
     ''%m.%d.%Y'', ''%d %b %Y'', ''%d %B %Y'', ''%b %d, %Y'', ''%B %d, %Y'']"

text \<open>
  \<^verbatim>\<open>datetime.strptime\<close> belongs to the Python library; the extractor is modelled for any
  such function that returns a datetime or raises. The inner loop goes to the next format
  on \<^verbatim>\<open>ValueError\<close>; any other exception leaves the loop and is caught outside it.
\<close>

fun try_formats ::
  "(pystr \<Rightarrow> pystr \<Rightarrow> py_error + datetime) \<Rightarrow> pystr \<Rightarrow> pystr list \<Rightarrow> py_error + datetime option"
where
  "try_formats strptime date_str [] = Inr None"
| "try_formats strptime date_str (fmt # fmts) =
     (case strptime date_str fmt of
        Inr d \<Rightarrow> Inr (Some d)
      | Inl ValueError \<Rightarrow> try_formats strptime date_str fmts
      | Inl e \<Rightarrow> Inl e)"

fun date_loop ::
  "(pystr \<Rightarrow> pystr \<Rightarrow> py_error + datetime) \<Rightarrow> regex list \<Rightarrow> pystr \<Rightarrow> datetime option" where
  "date_loop strptime [] text = None"
| "date_loop strptime (pattern # patterns) text =
     (case re_search pattern text of
        None \<Rightarrow> date_loop strptime patterns text
      | Some date_str \<Rightarrow>
          (case try_formats strptime date_str date_formats of
             Inr (Some d) \<Rightarrow> Some d
           | Inr None \<Rightarrow> date_loop strptime patterns text
           | Inl e \<Rightarrow> date_loop strptime patterns text))"

text \<open>
  Amount: \<^verbatim>\<open>(\d{1,3}(?:[.,]\d{3})*(?:[.,]\d{1,2}))\<close> is the group of all four patterns, which
  are searched with \<^verbatim>\<open>re.IGNORECASE\<close>.
\<close>

definition num_sep :: regex where
  "num_sep = Chr (\<lambda>c. c = 46 \<or> c = 44)"

definition currency :: regex where
  "currency = Chr (\<lambda>c. c = 36 \<or> c = 8364 \<or> c = 163 \<or> c = 8377)"

definition number :: regex where
  "number = Group (seqs [rep_range 1 3 digit, Star (Seq num_sep (rep 3 digit)),
                         num_sep, rep_range 1 2 digit])"

definition amount_patterns :: "regex list" where
  "amount_patterns =
     [seqs [alts (map (lit True) [''TOTAL'', ''AMOUNT'', ''BALANCE'', ''DUE'']), Star ws,
            opt (chr True 58), Star ws, opt currency, Star ws, number],
      seqs [currency, Star ws, number],
      seqs [number, Star ws, alts (map (lit True) [''INR'', ''USD'', ''EUR'', ''GBP''])],
      seqs [number, Star ws, Eol]]"

text \<open>
  The loop over the amount patterns. It returns \<^verbatim>\<open>found_amount\<close> and \<^verbatim>\<open>amount\<close>; the
  \<^verbatim>\<open>break\<close> is the return of the pair.
\<close>

fun amount_loop :: "regex list \<Rightarrow> pystr \<Rightarrow> rat \<Rightarrow> bool \<times> rat" where
  "amount_loop [] text amount = (False, amount)"
| "amount_loop (pattern # patterns) text amount =
     (let matches = re_findall pattern text in
      if matches \<noteq> [] then
        (case py_float (replace_comma (last matches)) of
           Some parsed_amount \<Rightarrow>
             if parsed_amount > 0 then (True, parsed_amount)
             else amount_loop patterns text amount
         | None \<Rightarrow> amount_loop patterns text amount)
      else amount_loop patterns text amount)"

definition extract_amount :: "pystr \<Rightarrow> rat" where
  "extract_amount text =
     (case amount_loop amount_patterns text (1 / 100) of
        (found_amount, amount) \<Rightarrow> if \<not> found_amount then 1 / 100 else amount)"

definition extract_category :: "pystr \<Rightarrow> pystr option" where
  "extract_category text =
     (let text_lower = lower text in
      if is_in (u ''grocer'') text_lower \<or> is_in (u ''supermarket'') text_lower \<or>
         is_in (u ''food'') text_lower
      then Some (u ''Groceries'')
      else if is_in (u ''electric'') text_lower \<or> is_in (u ''power'') text_lower \<or>
         is_in (u ''utility'') text_lower
      then Some (u ''Utilities'')
      else if is_in (u ''internet'') text_lower \<or> is_in (u ''broadband'') text_lower \<or>
         is_in (u ''telecom'') text_lower
      then Some (u ''Internet/Telecom'')
      else if is_in (u ''restaurant'') text_lower \<or> is_in (u ''cafe'') text_lower \<or>
         is_in (u ''dine'') text_lower
      then Some (u ''Dining'')
      else if is_in (u ''pharmacy'') text_lower \<or> is_in (u ''medicine'') text_lower \<or>
         is_in (u ''health'') text_lower
      then Some (u ''Health'')
      else Some (u ''Miscellaneous''))"

text \<open>
  The dictionary \<^verbatim>\<open>parse_receipt_text\<close> returns. \<^verbatim>\<open>transaction_date\<close> and \<^verbatim>\<open>category\<close> start
  as \<^verbatim>\<open>None\<close> in the code, so they are options here. The two parameters are the library's
  \<^verbatim>\<open>datetime.strptime\<close> and the value of \<^verbatim>\<open>datetime.now()\<close>. Every exception raised in the
  body is caught in the body.
\<close>

record parsed =
  vendor :: pystr
  transaction_date :: "datetime option"
  amount :: rat
  category :: "pystr option"
  extracted_text :: pystr

definition parse_receipt_text ::
  "(pystr \<Rightarrow> pystr \<Rightarrow> py_error + datetime) \<Rightarrow> datetime \<Rightarrow> pystr \<Rightarrow> parsed" where
  "parse_receipt_text strptime now text =
     (let transaction_date = date_loop strptime date_patterns text;
          transaction_date = (if transaction_date = None then Some now else transaction_date)
      in \<lparr>vendor = extract_vendor text,
          transaction_date = transaction_date,
          amount = extract_amount text,
          category = extract_category text,
          extracted_text = text\<rparr>)"


section \<open>Notions the properties of the extractor are stated with\<close>

text \<open>
  The lines the vendor fallback looks at, and its test of a line. A keyword that starts
  with an ASCII letter. The keywords of the category rules.
\<close>

definition receipt_lines :: "pystr \<Rightarrow> pystr list" where
  "receipt_lines text = filter (\<lambda>line. line \<noteq> []) (map strip (split_nl text))"

definition good_line :: "pystr \<Rightarrow> bool" where
  "good_line line \<longleftrightarrow>
     re_search date_or_amount_line line = None \<and> 3 < length line \<and> length line < 30"



text \<open>
  The amount resolution in the words of the specification. A pattern yields an amount
  when it has matches and the last of them, commas replaced by dots, parses to a number
  above 0. The amount is what the first pattern that yields one yields, and 0.01 if none
  does.
\<close>

definition pattern_amount :: "regex \<Rightarrow> pystr \<Rightarrow> rat option" where
  "pattern_amount p text =
     (case re_findall p text of
        [] \<Rightarrow> None
      | m # ms \<Rightarrow>
          (case py_float (replace_comma (last (m # ms))) of
             None \<Rightarrow> None
           | Some v \<Rightarrow> if 0 < v then Some v else None))"

definition spec_amount :: "pystr \<Rightarrow> rat" where
  "spec_amount text =
     (case List.map_filter (\<lambda>p. pattern_amount p text) amount_patterns of
        [] \<Rightarrow> 1 / 100
      | v # vs \<Rightarrow> v)"


section \<open>Time series: the period argument\<close>

text \<open>
  With a period that is neither month nor year the loop raises \<^verbatim>\<open>ValueError\<close> at the
  first record that has a datetime, and runs through when there is none.
\<close>

lemma time_series_loop_unknown_period:
  assumes "period \<noteq> u ''month''" "period \<noteq> u ''year''"
  shows "time_series_loop period rs acc =
           (if list_ex (\<lambda>r. date_of r \<noteq> None) rs then Inl ValueError else Inr acc)"
proof (induction rs)
  case Nil
  then show ?case by simp
next
  case (Cons r rs)
  show ?case
  proof (cases "date_of r")
    case None
    then have "time_series_loop period (r # rs) acc = time_series_loop period rs acc"
      by (auto simp: date_of_def split: option.splits pyval.splits)
    with None Cons show ?thesis by simp
  next
    case (Some d)
    then have "r (u ''transaction_date'') = Some (PDate d)"
      by (auto simp: date_of_def split: option.splits pyval.splits)
    with assms have "time_series_loop period (r # rs) acc = Inl ValueError"
      by simp
    with Some show ?thesis by simp
  qed
qed

lemma time_series_unknown_period:
  assumes "period \<noteq> u ''month''" "period \<noteq> u ''year''"
  shows "time_series_aggregation rs period =
           (if list_ex (\<lambda>r. date_of r \<noteq> None) rs then Inl ValueError else Inr [])"
  by (simp add: time_series_aggregation_def time_series_loop_unknown_period [OF assms])

text \<open>
  C5. The claim: with a period other than month or year, \<^verbatim>\<open>time_series_aggregation\<close> fails
  with an invalid-argument error on every record list, the empty one and the ones without
  dates included. The code tests the period only inside the loop, for a record that has a
  date: on the empty list, and on a list whose only record has no date, the period
  \<^verbatim>\<open>"week"\<close> is accepted and the empty mapping is returned. With a dated record in the
  list the same period raises the error the docstring and the message promise.
\<close>

theorem time_series_bad_period_accepted:
  "time_series_aggregation [] (u ''week'') = Inr []
   \<and> time_series_aggregation [[u ''amount'' \<mapsto> PNum 100, u ''transaction_date'' \<mapsto> PNone]]
        (u ''week'') = Inr []
   \<and> time_series_aggregation
        [[u ''amount'' \<mapsto> PNum 100,
          u ''transaction_date'' \<mapsto>
            PDate \<lparr>year = 2024, month = 1, day = 5, hour = 0, minute = 0, second = 0,
                   microsecond = 0\<rparr>]]
        (u ''week'') = Inl ValueError"
  by (simp add: time_series_aggregation_def u_def)


section \<open>Sorting: stability, reversal, typing of keys\<close>





lemma set_py_sorted [simp]: "set (py_sorted f reverse xs) = set xs"
  by (simp add: py_sorted_def)

lemma mset_py_sorted [simp]: "mset (py_sorted f reverse xs) = mset xs"
  by (simp add: py_sorted_def)





















section \<open>Aggregates: median and mode\<close>

lemma as_numbers_all:
  "list_all is_number vs \<Longrightarrow> as_numbers vs = Inr (map number_of vs)"
proof (induction vs)
  case Nil
  then show ?case by simp
next
  case (Cons v vs)
  then show ?case by (cases v) simp_all
qed

lemma as_numbers_amounts:
  "list_all (\<lambda>r. is_number (amount_value r)) rs \<Longrightarrow>
     as_numbers (map (\<lambda>r. get_default r (u ''amount'') (PNum 0)) rs)
       = Inr (map (\<lambda>r. number_of (amount_value r)) rs)"
  using as_numbers_all [of "map amount_value rs"]
  by (simp add: list_all_iff amount_value_def [abs_def] comp_def)

lemma calculate_aggregates_numeric:
  assumes "rs \<noteq> []" "list_all (\<lambda>r. is_number (amount_value r)) rs"
  shows "\<exists>agg. calculate_aggregates rs = Inr agg
           \<and> median_spend agg = median_of (map (\<lambda>r. number_of (amount_value r)) rs)
           \<and> mode_spend agg = mode_of (map (\<lambda>r. number_of (amount_value r)) rs)
           \<and> total_spend agg = sum_list (map (\<lambda>r. number_of (amount_value r)) rs)"
  using assms by (simp add: calculate_aggregates_def as_numbers_amounts)



lemma counter_incr_keys:
  "map fst (counter_incr x acc) = (if x \<in> set (map fst acc) then map fst acc else map fst acc @ [x])"
  by (induction x acc rule: counter_incr.induct) auto

lemma counter_incr_map_of:
  "map_of (counter_incr x acc) = (map_of acc)(x \<mapsto> (case map_of acc x of None \<Rightarrow> 1 | Some c \<Rightarrow> c + 1))"
  by (induction x acc rule: counter_incr.induct) (auto simp: fun_eq_iff)

lemma counts_of_incr:
  assumes "counts_of acc ys"
  shows "counts_of (counter_incr x acc) (ys @ [x])"
proof -
  from assms have d: "distinct (map fst acc)"
    and m: "map_of acc = (\<lambda>a. if a \<in> set ys then Some (count_list ys a) else None)"
    by (simp_all add: counts_of_def)
  have "distinct (map fst (counter_incr x acc))"
    using d by (simp add: counter_incr_keys)
  moreover have "map_of (counter_incr x acc) =
      (\<lambda>a. if a \<in> set (ys @ [x]) then Some (count_list (ys @ [x]) a) else None)"
    by (auto simp: counter_incr_map_of m fun_eq_iff count_list_0_iff)
  ultimately show ?thesis by (simp add: counts_of_def)
qed

lemma counts_of_fold:
  "counts_of acc ys \<Longrightarrow> counts_of (fold counter_incr xs acc) (ys @ xs)"
proof (induction xs arbitrary: acc ys)
  case Nil
  then show ?case by simp
next
  case (Cons x xs)
  from Cons.IH [OF counts_of_incr [OF Cons.prems, of x]] show ?case by simp
qed

lemma counts_of_counter: "counts_of (counter xs) xs"
  using counts_of_fold [of "[]" "[]" xs] by (simp add: counter_def counts_of_def)

lemma set_counter: "set (counter xs) = (\<lambda>a. (a, count_list xs a)) ` set xs"
proof -
  from counts_of_counter [of xs] have d: "distinct (map fst (counter xs))"
    and m: "map_of (counter xs) = (\<lambda>a. if a \<in> set xs then Some (count_list xs a) else None)"
    by (simp_all add: counts_of_def)
  show ?thesis
  proof (rule set_eqI)
    fix p :: "'a \<times> nat"
    obtain a c where p: "p = (a, c)" by (cases p)
    have "(a, c) \<in> set (counter xs) \<longleftrightarrow> map_of (counter xs) a = Some c"
      using d by simp
    also have "\<dots> \<longleftrightarrow> a \<in> set xs \<and> c = count_list xs a"
      by (auto simp: m)
    finally show "p \<in> set (counter xs) \<longleftrightarrow> p \<in> (\<lambda>a. (a, count_list xs a)) ` set xs"
      by (auto simp: p)
  qed
qed

lemma distinct_counter: "distinct (map fst (counter xs))"
  using counts_of_counter [of xs] by (simp add: counts_of_def)

lemma py_max_Max: "ns \<noteq> [] \<Longrightarrow> py_max ns = Max (set ns)"
  by (cases ns) (simp_all add: Max.set_eq_fold [symmetric])

lemma mode_of_set:
  assumes "xs \<noteq> []"
  shows "set (mode_of xs) = {a \<in> set xs. \<forall>b \<in> set xs. count_list xs b \<le> count_list xs a}"
proof -
  have ne: "counter xs \<noteq> []"
    using assms set_counter [of xs] by (cases xs) auto
  let ?M = "Max (set (map snd (counter xs)))"
  have M: "py_max (map snd (counter xs)) = ?M"
    using ne by (simp add: py_max_Max)
  have vals: "set (map snd (counter xs)) = count_list xs ` set xs"
    by (simp add: set_counter image_image)
  have "set (mode_of xs) = {a \<in> set xs. count_list xs a = ?M}"
    using ne by (auto simp: mode_of_def M set_counter image_iff)
  also have "\<dots> = {a \<in> set xs. \<forall>b \<in> set xs. count_list xs b \<le> count_list xs a}"
  proof (rule Collect_cong, rule conj_cong [OF refl])
    fix a assume a: "a \<in> set xs"
    have fin: "finite (count_list xs ` set xs)" by simp
    have nemp: "count_list xs ` set xs \<noteq> {}" using assms by simp
    show "(count_list xs a = ?M) \<longleftrightarrow> (\<forall>b \<in> set xs. count_list xs b \<le> count_list xs a)"
      unfolding vals using a Max_eq_iff [OF fin nemp, of "count_list xs a"] by auto
  qed
  finally show ?thesis .
qed

lemma mode_of_distinct: "distinct (mode_of xs)"
  unfolding mode_of_def Let_def by (rule distinct_map_filter) (rule distinct_counter)


lemma sorted_nth_below:
  fixes s :: "rat list"
  assumes "sorted s" "k < length s"
  shows "length (filter (\<lambda>x. x < s ! k) s) \<le> k"
proof -
  have "filter (\<lambda>x. x < s ! k) (drop k s) = []"
    unfolding filter_empty_conv
  proof
    fix x assume "x \<in> set (drop k s)"
    then obtain i where "i < length (drop k s)" "x = drop k s ! i"
      by (auto simp: in_set_conv_nth)
    then have "x = s ! (k + i)" "k + i < length s" by auto
    with assms show "\<not> x < s ! k"
      using sorted_nth_mono [of s k "k + i"] by simp
  qed
  then have "filter (\<lambda>x. x < s ! k) s = filter (\<lambda>x. x < s ! k) (take k s)"
    using filter_append [of "\<lambda>x. x < s ! k" "take k s" "drop k s"] by simp
  then have "length (filter (\<lambda>x. x < s ! k) s) \<le> length (take k s)"
    by (simp only: length_filter_le)
  then show ?thesis by simp
qed

lemma sorted_nth_above:
  fixes s :: "rat list"
  assumes "sorted s" "k < length s"
  shows "length (filter (\<lambda>x. s ! k < x) s) \<le> length s - Suc k"
proof -
  have "filter (\<lambda>x. s ! k < x) (take (Suc k) s) = []"
    unfolding filter_empty_conv
  proof
    fix x assume "x \<in> set (take (Suc k) s)"
    then obtain i where "i < Suc k" "i < length s" "x = s ! i"
      by (auto simp: in_set_conv_nth)
    with assms show "\<not> s ! k < x"
      using sorted_nth_mono [of s i k] by simp
  qed
  then have "filter (\<lambda>x. s ! k < x) s = filter (\<lambda>x. s ! k < x) (drop (Suc k) s)"
    using filter_append [of "\<lambda>x. s ! k < x" "take (Suc k) s" "drop (Suc k) s"] by simp
  then have "length (filter (\<lambda>x. s ! k < x) s) \<le> length (drop (Suc k) s)"
    by (simp only: length_filter_le)
  then show ?thesis by simp
qed

lemma length_filter_sort:
  fixes xs :: "rat list"
  shows "length (filter P (sort xs)) = length (filter P xs)"
proof -
  have "mset (filter P (sort xs)) = mset (filter P xs)" by simp
  then show ?thesis by (rule mset_eq_length)
qed

lemma median_middle:
  fixes xs :: "rat list"
  assumes "xs \<noteq> []"
  shows "(odd (length xs) \<longrightarrow>
            length (filter (\<lambda>x. x < sort xs ! (length xs div 2)) xs) \<le> length xs div 2 \<and>
            length (filter (\<lambda>x. sort xs ! (length xs div 2) < x) xs) \<le> length xs div 2)
       \<and> (even (length xs) \<longrightarrow>
            sort xs ! (length xs div 2 - 1) \<le> sort xs ! (length xs div 2) \<and>
            length (filter (\<lambda>x. x < sort xs ! (length xs div 2 - 1)) xs) \<le> length xs div 2 - 1 \<and>
            length (filter (\<lambda>x. sort xs ! (length xs div 2) < x) xs) \<le> length xs div 2 - 1)"
proof -
  let ?s = "sort xs" and ?n = "length xs"
  have s: "sorted ?s" "length ?s = ?n" by simp_all
  from assms have n: "0 < ?n" by simp
  then have h: "?n div 2 < length ?s" by simp
  have lo: "?n div 2 - 1 < length ?s" using n by (simp add: less_imp_diff_less)
  show ?thesis
  proof (intro conjI impI)
    show "length (filter (\<lambda>x. x < ?s ! (?n div 2)) xs) \<le> ?n div 2"
      using sorted_nth_below [OF s(1) h] by (simp only: length_filter_sort)
    show "length (filter (\<lambda>x. ?s ! (?n div 2) < x) xs) \<le> ?n div 2" if "odd ?n"
    proof -
      have "length (filter (\<lambda>x. ?s ! (?n div 2) < x) xs) \<le> length ?s - Suc (?n div 2)"
        using sorted_nth_above [OF s(1) h] by (simp only: length_filter_sort)
      moreover have "length ?s - Suc (?n div 2) = ?n div 2"
        using that by (auto elim!: oddE)
      ultimately show ?thesis by simp
    qed
    show "?s ! (?n div 2 - 1) \<le> ?s ! (?n div 2)"
      using sorted_nth_mono [OF s(1), of "?n div 2 - 1" "?n div 2"] h by simp
    show "length (filter (\<lambda>x. x < ?s ! (?n div 2 - 1)) xs) \<le> ?n div 2 - 1"
      using sorted_nth_below [OF s(1) lo] by (simp only: length_filter_sort)
    show "length (filter (\<lambda>x. ?s ! (?n div 2) < x) xs) \<le> ?n div 2 - 1" if "even ?n"
    proof -
      have "length (filter (\<lambda>x. ?s ! (?n div 2) < x) xs) \<le> length ?s - Suc (?n div 2)"
        using sorted_nth_above [OF s(1) h] by (simp only: length_filter_sort)
      moreover have "length ?s - Suc (?n div 2) = ?n div 2 - 1"
        using that by (auto elim!: evenE)
      ultimately show ?thesis by simp
    qed
  qed
qed


text \<open>
  C7. For a non-empty record list whose amounts are numbers (a record without amount
  counts as 0), \<^verbatim>\<open>calculate_aggregates\<close> returns, and its \<^verbatim>\<open>median_spend\<close> is taken from the
  amounts sorted ascending: the element in the middle for an odd count, the mean of the
  two elements in the middle for an even count. Those are middle values of the amounts:
  at most half of the amounts lie below and at most half above. The medians of
  10, 20, 30 and of 10, 20, 30, 40 are 20 and 25.
\<close>

theorem calculate_aggregates_median:
  "(receipts \<noteq> [] \<and> list_all (\<lambda>r. is_number (amount_value r)) receipts \<longrightarrow>
      (\<exists>agg. calculate_aggregates receipts = Inr agg \<and>
         (let amounts = map (\<lambda>r. number_of (amount_value r)) receipts;
              s = sort amounts; n = length amounts; h = n div 2
          in (odd n \<longrightarrow> median_spend agg = s ! h \<and>
                length (filter (\<lambda>x. x < s ! h) amounts) \<le> h \<and>
                length (filter (\<lambda>x. s ! h < x) amounts) \<le> h)
           \<and> (even n \<longrightarrow> median_spend agg = (s ! (h - 1) + s ! h) / 2 \<and>
                s ! (h - 1) \<le> s ! h \<and>
                length (filter (\<lambda>x. x < s ! (h - 1)) amounts) \<le> h - 1 \<and>
                length (filter (\<lambda>x. s ! h < x) amounts) \<le> h - 1))))
   \<and> map_sum id median_spend (calculate_aggregates
         [[u ''amount'' \<mapsto> PNum 10], [u ''amount'' \<mapsto> PNum 20], [u ''amount'' \<mapsto> PNum 30]])
       = Inr 20
   \<and> map_sum id median_spend (calculate_aggregates
         [[u ''amount'' \<mapsto> PNum 10], [u ''amount'' \<mapsto> PNum 20], [u ''amount'' \<mapsto> PNum 30],
          [u ''amount'' \<mapsto> PNum 40]])
       = Inr 25"
proof (intro conjI impI)
  assume a: "receipts \<noteq> [] \<and> list_all (\<lambda>r. is_number (amount_value r)) receipts"
  let ?amounts = "map (\<lambda>r. number_of (amount_value r)) receipts"
  from a have ne: "?amounts \<noteq> []" by simp
  from a calculate_aggregates_numeric [of receipts]
  obtain agg where agg: "calculate_aggregates receipts = Inr agg"
    and med: "median_spend agg = median_of ?amounts"
    by blast
  have odd_med: "median_of ?amounts = sort ?amounts ! (length ?amounts div 2)"
    if "odd (length ?amounts)"
    using that by (simp add: median_of_def Let_def odd_iff_mod_2_eq_one)
  have even_med: "median_of ?amounts =
      (sort ?amounts ! (length ?amounts div 2 - 1) + sort ?amounts ! (length ?amounts div 2)) / 2"
    if "even (length ?amounts)"
    using that by (simp add: median_of_def Let_def even_iff_mod_2_eq_zero)
  show "\<exists>agg. calculate_aggregates receipts = Inr agg \<and>
         (let amounts = ?amounts; s = sort amounts; n = length amounts; h = n div 2
          in (odd n \<longrightarrow> median_spend agg = s ! h \<and>
                length (filter (\<lambda>x. x < s ! h) amounts) \<le> h \<and>
                length (filter (\<lambda>x. s ! h < x) amounts) \<le> h)
           \<and> (even n \<longrightarrow> median_spend agg = (s ! (h - 1) + s ! h) / 2 \<and>
                s ! (h - 1) \<le> s ! h \<and>
                length (filter (\<lambda>x. x < s ! (h - 1)) amounts) \<le> h - 1 \<and>
                length (filter (\<lambda>x. s ! h < x) amounts) \<le> h - 1))"
    unfolding Let_def
    using agg med odd_med even_med median_middle [OF ne] by auto
next
  show "map_sum id median_spend (calculate_aggregates
         [[u ''amount'' \<mapsto> PNum 10], [u ''amount'' \<mapsto> PNum 20], [u ''amount'' \<mapsto> PNum 30]])
       = Inr 20"
    by (simp add: calculate_aggregates_def get_default_def median_of_def)
next
  show "map_sum id median_spend (calculate_aggregates
         [[u ''amount'' \<mapsto> PNum 10], [u ''amount'' \<mapsto> PNum 20], [u ''amount'' \<mapsto> PNum 30],
          [u ''amount'' \<mapsto> PNum 40]])
       = Inr 25"
    by (simp add: calculate_aggregates_def get_default_def median_of_def)
qed

text \<open>The theorem at the amounts 30, 10, 20, in that order: the median is 20.\<close>

theorem calculate_aggregates_median_witness:
  "[[u ''amount'' \<mapsto> PNum 30], [u ''amount'' \<mapsto> PNum 10], [u ''amount'' \<mapsto> PNum 20]] \<noteq> []
   \<and> list_all (\<lambda>r. is_number (amount_value r))
        [[u ''amount'' \<mapsto> PNum 30], [u ''amount'' \<mapsto> PNum 10], [u ''amount'' \<mapsto> PNum 20]]
   \<and> (\<exists>agg. calculate_aggregates
        [[u ''amount'' \<mapsto> PNum 30], [u ''amount'' \<mapsto> PNum 10], [u ''amount'' \<mapsto> PNum 20]] = Inr agg
        \<and> median_spend agg = 20)"
proof -
  let ?rs = "[[u ''amount'' \<mapsto> PNum 30], [u ''amount'' \<mapsto> PNum 10], [u ''amount'' \<mapsto> PNum 20]]"
  have h: "?rs \<noteq> [] \<and> list_all (\<lambda>r. is_number (amount_value r)) ?rs"
    by (simp add: amount_value_def get_default_def)
  have n: "map (\<lambda>r. number_of (amount_value r)) ?rs = [30, 10, 20]"
    by (simp add: amount_value_def get_default_def)
  from calculate_aggregates_median [of ?rs] h
  obtain agg where "calculate_aggregates ?rs = Inr agg"
    and "odd (length [30, 10, 20 :: rat]) \<longrightarrow> median_spend agg = sort [30, 10, 20] ! (length [30, 10, 20 :: rat] div 2)"
    unfolding Let_def n by blast
  then have "calculate_aggregates ?rs = Inr agg \<and> median_spend agg = 20"
    by simp
  with h show ?thesis by blast
qed

text \<open>
  C8. For a non-empty record list whose amounts are numbers, \<^verbatim>\<open>mode_spend\<close> lists, each
  once, exactly the amounts that occur at least as often as every other amount: all the
  values tied for the highest count. For 5, 5, 10 that is 5 alone; for 5, 5, 10, 10 it
  is 5 and 10.
\<close>

theorem calculate_aggregates_mode:
  "(receipts \<noteq> [] \<and> list_all (\<lambda>r. is_number (amount_value r)) receipts \<longrightarrow>
      (\<exists>agg. calculate_aggregates receipts = Inr agg \<and> distinct (mode_spend agg) \<and>
         (let amounts = map (\<lambda>r. number_of (amount_value r)) receipts
          in set (mode_spend agg) =
               {a \<in> set amounts. \<forall>b \<in> set amounts. count_list amounts b \<le> count_list amounts a})))
   \<and> map_sum id mode_spend (calculate_aggregates
         [[u ''amount'' \<mapsto> PNum 5], [u ''amount'' \<mapsto> PNum 5], [u ''amount'' \<mapsto> PNum 10]])
       = Inr [5]
   \<and> map_sum id mode_spend (calculate_aggregates
         [[u ''amount'' \<mapsto> PNum 5], [u ''amount'' \<mapsto> PNum 5], [u ''amount'' \<mapsto> PNum 10],
          [u ''amount'' \<mapsto> PNum 10]])
       = Inr [5, 10]"
proof (intro conjI impI)
  assume a: "receipts \<noteq> [] \<and> list_all (\<lambda>r. is_number (amount_value r)) receipts"
  let ?amounts = "map (\<lambda>r. number_of (amount_value r)) receipts"
  from a have ne: "?amounts \<noteq> []" by simp
  from a calculate_aggregates_numeric [of receipts]
  obtain agg where agg: "calculate_aggregates receipts = Inr agg"
    and mode: "mode_spend agg = mode_of ?amounts"
    by blast
  show "\<exists>agg. calculate_aggregates receipts = Inr agg \<and> distinct (mode_spend agg) \<and>
         (let amounts = ?amounts
          in set (mode_spend agg) =
               {a \<in> set amounts. \<forall>b \<in> set amounts. count_list amounts b \<le> count_list amounts a})"
    unfolding Let_def using agg mode mode_of_set [OF ne] mode_of_distinct [of ?amounts] by simp
next
  show "map_sum id mode_spend (calculate_aggregates
         [[u ''amount'' \<mapsto> PNum 5], [u ''amount'' \<mapsto> PNum 5], [u ''amount'' \<mapsto> PNum 10]])
       = Inr [5]"
    by (simp add: calculate_aggregates_def get_default_def mode_of_def counter_def)
next
  show "map_sum id mode_spend (calculate_aggregates
         [[u ''amount'' \<mapsto> PNum 5], [u ''amount'' \<mapsto> PNum 5], [u ''amount'' \<mapsto> PNum 10],
          [u ''amount'' \<mapsto> PNum 10]])
       = Inr [5, 10]"
    by (simp add: calculate_aggregates_def get_default_def mode_of_def counter_def)
qed

text \<open>The theorem at the amounts 7, 3, 7, 3, 1: the modes are 7 and 3.\<close>

theorem calculate_aggregates_mode_witness:
  "[[u ''amount'' \<mapsto> PNum 7], [u ''amount'' \<mapsto> PNum 3], [u ''amount'' \<mapsto> PNum 7],
    [u ''amount'' \<mapsto> PNum 3], [u ''amount'' \<mapsto> PNum 1]] \<noteq> []
   \<and> list_all (\<lambda>r. is_number (amount_value r))
        [[u ''amount'' \<mapsto> PNum 7], [u ''amount'' \<mapsto> PNum 3], [u ''amount'' \<mapsto> PNum 7],
         [u ''amount'' \<mapsto> PNum 3], [u ''amount'' \<mapsto> PNum 1]]
   \<and> (\<exists>agg. calculate_aggregates
        [[u ''amount'' \<mapsto> PNum 7], [u ''amount'' \<mapsto> PNum 3], [u ''amount'' \<mapsto> PNum 7],
         [u ''amount'' \<mapsto> PNum 3], [u ''amount'' \<mapsto> PNum 1]] = Inr agg
        \<and> distinct (mode_spend agg) \<and> mode_spend agg = [7, 3])"
proof -
  let ?rs = "[[u ''amount'' \<mapsto> PNum 7], [u ''amount'' \<mapsto> PNum 3], [u ''amount'' \<mapsto> PNum 7],
    [u ''amount'' \<mapsto> PNum 3], [u ''amount'' \<mapsto> PNum 1 :: pyval]]"
  have h: "?rs \<noteq> [] \<and> list_all (\<lambda>r. is_number (amount_value r)) ?rs"
    by (simp add: amount_value_def get_default_def)
  from calculate_aggregates_mode [of ?rs] h
  obtain agg where agg: "calculate_aggregates ?rs = Inr agg" and d: "distinct (mode_spend agg)"
    by blast
  have "map_sum id mode_spend (calculate_aggregates ?rs) = Inr [7, 3]"
    by (simp add: calculate_aggregates_def get_default_def mode_of_def counter_def)
  with agg have "mode_spend agg = [7, 3]" by simp
  with h agg d show ?thesis by blast
qed


section \<open>Time series: buckets and their order\<close>











section \<open>The extractor always returns a complete record\<close>

















lemma amount_loop_not_found:
  "amount_loop patterns text a0 = (False, a) \<Longrightarrow> a = a0"
  by (induction patterns) (auto simp: Let_def split: option.splits if_splits)








lemma rep_numeral:
  "rep (numeral k) r = Seq r (rep (pred_numeral k) r)" "rep 1 r = Seq r Eps"
  by (simp_all add: numeral_eq_Suc)

lemma rep_upto_numeral:
  "rep_upto (numeral k) r = opt (Seq r (rep_upto (pred_numeral k) r))"
  "rep_upto 1 r = opt (Seq r Eps)"
  by (simp_all add: numeral_eq_Suc)

lemmas ev = u_def is_digit_def is_space_def is_word_def lower_c_def at_word_def re_search_def
  the_cap_def re_findall_def chr_def lit_def opt_def one_or_more_def rep_range_def digit_def ws_def
  word_chr_def strip_def lower_def replace_comma_def decimal_value_def py_float_def
  vendor_patterns_def date_or_amount_line_def extract_vendor_def months_def date_sep_def
  date_patterns_def date_formats_def num_sep_def currency_def number_def amount_patterns_def
  extract_amount_def extract_category_def rep_numeral rep_upto_numeral





section \<open>Vendor and amount resolution\<close>

lemma vendor_line_loop_find:
  "vendor_line_loop lines v = (case List.find good_line lines of None \<Rightarrow> v | Some line \<Rightarrow> line)"
  by (induction lines) (auto simp: good_line_def)

text \<open>
  C2. The claim: the line-by-line step is a fallback, applied only if no keyword pattern
  matches, so that a keyword match is never overridden. The code's own comment calls the
  step a fallback, but the loop over the lines runs unguarded after the keyword loop: the
  first line that passes the line test becomes the vendor whatever the keyword loop found.
  On the text \<^verbatim>\<open>"Receipt 0042\nWalmart"\<close> the second keyword pattern matches \<^verbatim>\<open>Walmart\<close>, the
  keyword loop sets the vendor to it, and the function returns \<^verbatim>\<open>"Receipt 0042"\<close>.
\<close>

theorem vendor_line_overrides_keyword:
  "extract_vendor text =
     (case List.find good_line (receipt_lines text) of
        None \<Rightarrow> vendor_keyword_loop vendor_patterns text (u ''Unknown Vendor'')
      | Some line \<Rightarrow> line)
   \<and> re_search (vendor_patterns ! 1) (u ''Receipt 0042\<newline>Walmart'') = Some (u ''Walmart'')
   \<and> vendor_keyword_loop vendor_patterns (u ''Receipt 0042\<newline>Walmart'') (u ''Unknown Vendor'')
       = u ''Walmart''
   \<and> vendor (parse_receipt_text strptime now (u ''Receipt 0042\<newline>Walmart'')) = u ''Receipt 0042''"
proof (intro conjI)
  show "extract_vendor text =
     (case List.find good_line (receipt_lines text) of
        None \<Rightarrow> vendor_keyword_loop vendor_patterns text (u ''Unknown Vendor'')
      | Some line \<Rightarrow> line)"
    by (simp add: extract_vendor_def receipt_lines_def vendor_line_loop_find)
  show "re_search (vendor_patterns ! 1) (u ''Receipt 0042\<newline>Walmart'') = Some (u ''Walmart'')"
    by (simp add: ev)
  show "vendor_keyword_loop vendor_patterns (u ''Receipt 0042\<newline>Walmart'') (u ''Unknown Vendor'')
       = u ''Walmart''"
    by (simp add: ev)
  show "vendor (parse_receipt_text strptime now (u ''Receipt 0042\<newline>Walmart'')) = u ''Receipt 0042''"
    by (simp add: parse_receipt_text_def Let_def ev)
qed

lemma amount_loop_first:
  "amount_loop ps text a0 =
     (case List.map_filter (\<lambda>p. pattern_amount p text) ps of
        [] \<Rightarrow> (False, a0)
      | v # vs \<Rightarrow> (True, v))"
proof (induction ps)
  case Nil
  then show ?case by simp
next
  case (Cons p ps)
  show ?case
  proof (cases "pattern_amount p text")
    case None
    then have "amount_loop (p # ps) text a0 = amount_loop ps text a0"
      by (auto simp: pattern_amount_def Let_def split: list.splits option.splits if_splits)
    with None Cons show ?thesis by simp
  next
    case (Some v)
    then have "amount_loop (p # ps) text a0 = (True, v)"
      by (auto simp: pattern_amount_def Let_def split: list.splits option.splits if_splits)
    with Some show ?thesis by simp
  qed
qed

lemma extract_amount_spec: "extract_amount text = spec_amount text"
  by (simp add: extract_amount_def spec_amount_def amount_loop_first split: list.splits)



lemma digits_no_dot: "\<forall>c \<in> set ds. is_digit c \<Longrightarrow> count_list ds 46 = 0"
  unfolding count_list_0_iff by (auto simp: is_digit_def)

lemma py_float_one_dot:
  assumes "py_float t = Some v"
  shows "count_list t 46 \<le> 1"
proof -
  have ip: "count_list (takeWhile is_digit t) 46 = 0"
    by (rule digits_no_dot) (auto dest: set_takeWhileD)
  have split: "count_list t 46 =
      count_list (takeWhile is_digit t) 46 + count_list (dropWhile is_digit t) 46"
    using count_list_append [of "takeWhile is_digit t" "dropWhile is_digit t" 46] by simp
  show ?thesis
  proof (cases "dropWhile is_digit t")
    case Nil
    with ip split show ?thesis by simp
  next
    case (Cons c fp)
    with assms have "c = 46" "list_all is_digit fp"
      by (auto simp: py_float_def Let_def split: if_splits)
    then have "count_list (c # fp) 46 = 1"
      using digits_no_dot [of fp] by (simp add: list_all_iff)
    with ip split Cons show ?thesis by simp
  qed
qed

lemma py_float_two_dots: "2 \<le> count_list t 46 \<Longrightarrow> py_float t = None"
  using py_float_one_dot [of t] by (cases "py_float t") auto

lemma count_replace_comma:
  "count_list (replace_comma s) 46 = count_list s 46 + count_list s 44"
  by (induction s) (auto simp: replace_comma_def)

lemma comma_and_dot:
  assumes "44 \<in> set s" "46 \<in> set s"
  shows "py_float (replace_comma s) = None"
proof -
  from assms have "0 < count_list s 44" "0 < count_list s 46"
    using count_list_0_iff [of s 44] count_list_0_iff [of s 46] by auto
  then have "2 \<le> count_list (replace_comma s) 46"
    by (simp add: count_replace_comma)
  then show ?thesis by (rule py_float_two_dots)
qed

lemma pattern_amount_unparsed:
  "re_findall p text = [] \<or> py_float (replace_comma (last (re_findall p text))) = None \<Longrightarrow>
     pattern_amount p text = None"
  by (auto simp: pattern_amount_def split: list.splits)

lemma spec_amount_none:
  assumes "list_all (\<lambda>p. pattern_amount p text = None) amount_patterns"
  shows "spec_amount text = 1 / 100"
proof -
  have "List.map_filter (\<lambda>p. pattern_amount p text) ps = []"
    if "list_all (\<lambda>p. pattern_amount p text = None) ps" for ps
    using that by (induction ps) (simp_all add: List.map_filter_simps)
  from this [OF assms] show ?thesis by (simp add: spec_amount_def)
qed

text \<open>
  C10. Replacing commas leaves no comma and turns each into a dot, so a matched number
  with a comma and a dot has two dots or more and \<^verbatim>\<open>float\<close> rejects it. A pattern whose
  last match is rejected is passed over, whatever its earlier matches were, and when that
  happens to every pattern that has a match the amount is 0.01. From
  \<^verbatim>\<open>"TOTAL: 1,234.56"\<close> the amount is 0.01; it still is when a line \<^verbatim>\<open>"TOTAL: 5.00"\<close> comes
  before.
\<close>

theorem comma_thousands_amount_lost:
  "44 \<notin> set (replace_comma s)
   \<and> length (replace_comma s) = length s
   \<and> count_list (replace_comma s) 46 = count_list s 46 + count_list s 44
   \<and> (44 \<in> set s \<and> 46 \<in> set s \<longrightarrow> py_float (replace_comma s) = None)
   \<and> (re_findall p text \<noteq> [] \<and> py_float (replace_comma (last (re_findall p text))) = None \<longrightarrow>
        amount_loop (p # ps) text a0 = amount_loop ps text a0)
   \<and> (list_all (\<lambda>p. re_findall p text = [] \<or>
                     py_float (replace_comma (last (re_findall p text))) = None) amount_patterns \<longrightarrow>
        amount (parse_receipt_text strptime now text) = 1 / 100)
   \<and> replace_comma (u ''1,234.56'') = u ''1.234.56''
   \<and> py_float (u ''1.234.56'') = None
   \<and> map (\<lambda>p. re_findall p (u ''TOTAL: 1,234.56'')) amount_patterns
       = [[u ''1,234.56''], [], [], [u ''1,234.56'']]
   \<and> amount (parse_receipt_text strptime now (u ''TOTAL: 1,234.56'')) = 1 / 100
   \<and> map (\<lambda>p. re_findall p (u ''TOTAL: 5.00\<newline>TOTAL: 1,234.56'')) amount_patterns
       = [[u ''5.00'', u ''1,234.56''], [], [], [u ''1,234.56'']]
   \<and> amount (parse_receipt_text strptime now (u ''TOTAL: 5.00\<newline>TOTAL: 1,234.56'')) = 1 / 100"
proof (intro conjI impI)
  show "44 \<notin> set (replace_comma s)"
    by (auto simp: replace_comma_def)
  show "length (replace_comma s) = length s"
    by (simp add: replace_comma_def)
  show "count_list (replace_comma s) 46 = count_list s 46 + count_list s 44"
    by (rule count_replace_comma)
  show "py_float (replace_comma s) = None" if "44 \<in> set s \<and> 46 \<in> set s"
    using that comma_and_dot by blast
  show "amount_loop (p # ps) text a0 = amount_loop ps text a0"
    if "re_findall p text \<noteq> [] \<and> py_float (replace_comma (last (re_findall p text))) = None"
    using that by (simp add: Let_def)
  show "amount (parse_receipt_text strptime now text) = 1 / 100"
    if "list_all (\<lambda>p. re_findall p text = [] \<or>
                     py_float (replace_comma (last (re_findall p text))) = None) amount_patterns"
  proof -
    from that have "list_all (\<lambda>p. pattern_amount p text = None) amount_patterns"
      by (simp add: list_all_iff pattern_amount_unparsed)
    then show ?thesis
      by (simp add: parse_receipt_text_def Let_def extract_amount_spec spec_amount_none)
  qed
  show "replace_comma (u ''1,234.56'') = u ''1.234.56''"
    by (simp add: ev)
  show "py_float (u ''1.234.56'') = None"
    by (simp add: ev)
  show "map (\<lambda>p. re_findall p (u ''TOTAL: 1,234.56'')) amount_patterns
       = [[u ''1,234.56''], [], [], [u ''1,234.56'']]"
    by (simp add: ev)
  show "amount (parse_receipt_text strptime now (u ''TOTAL: 1,234.56'')) = 1 / 100"
    by (simp add: parse_receipt_text_def Let_def ev)
  show "map (\<lambda>p. re_findall p (u ''TOTAL: 5.00\<newline>TOTAL: 1,234.56'')) amount_patterns
       = [[u ''5.00'', u ''1,234.56''], [], [], [u ''1,234.56'']]"
    by (simp add: ev)
  show "amount (parse_receipt_text strptime now (u ''TOTAL: 5.00\<newline>TOTAL: 1,234.56'')) = 1 / 100"
    by (simp add: parse_receipt_text_def Let_def ev)
qed

text \<open>The theorem at the matched number \<^verbatim>\<open>1,234.56\<close> and the text \<^verbatim>\<open>"TOTAL: 1,234.56"\<close>.\<close>

theorem comma_thousands_amount_lost_witness:
  "44 \<in> set (u ''1,234.56'') \<and> 46 \<in> set (u ''1,234.56'')
   \<and> py_float (replace_comma (u ''1,234.56'')) = None
   \<and> list_all (\<lambda>p. re_findall p (u ''TOTAL: 1,234.56'') = [] \<or>
         py_float (replace_comma (last (re_findall p (u ''TOTAL: 1,234.56'')))) = None)
        amount_patterns
   \<and> amount (parse_receipt_text (\<lambda>s f. Inl ValueError)
        \<lparr>year = 2026, month = 11, day = 3, hour = 9, minute = 30, second = 0, microsecond = 0\<rparr>
        (u ''TOTAL: 1,234.56'')) = 1 / 100"
proof -
  have h1: "44 \<in> set (u ''1,234.56'') \<and> 46 \<in> set (u ''1,234.56'')"
    by (simp add: u_def)
  have h2: "list_all (\<lambda>p. re_findall p (u ''TOTAL: 1,234.56'') = [] \<or>
         py_float (replace_comma (last (re_findall p (u ''TOTAL: 1,234.56'')))) = None)
        amount_patterns"
    by (simp add: ev)
  note th = comma_thousands_amount_lost [of "u ''1,234.56''" _ "u ''TOTAL: 1,234.56''" _ _
      "\<lambda>s f. Inl ValueError"
      "\<lparr>year = 2026, month = 11, day = 3, hour = 9, minute = 30, second = 0, microsecond = 0\<rparr>"]
  from th h1 have c1: "py_float (replace_comma (u ''1,234.56'')) = None"
    by blast
  from th h2 have c2: "amount (parse_receipt_text (\<lambda>s f. Inl ValueError)
        \<lparr>year = 2026, month = 11, day = 3, hour = 9, minute = 30, second = 0, microsecond = 0\<rparr>
        (u ''TOTAL: 1,234.56'')) = 1 / 100"
    by blast
  from h1 h2 c1 c2 show ?thesis by blast
qed

end
